theory Spec2Isabelle
  imports Complex_Main
begin

section \<open>Values of the embedding\<close>

text \<open>
  The module \<^verbatim>\<open>lmppl/ppl_recurrent_lm.py\<close> scores texts with a pretrained causal language
  model. Its class \<^verbatim>\<open>LM\<close> has a constructor and one method, \<^verbatim>\<open>get_perplexity\<close>.

  Python exceptions are values of \<open>py_error\<close>; a computation that may raise returns
  \<open>py_error + 'a\<close>, with \<open>Inl\<close> for the exception.
\<close>

datatype py_error = ValueError | IndexError | KeyError | RuntimeError | AssertionError

text \<open>
  Floating-point numbers are idealised: a finite value is a real number (no rounding, no
  overflow), and the three special values that a division by zero and \<^verbatim>\<open>math.exp\<close>
  can produce are kept apart.
\<close>

datatype pyfloat = Finite real | PosInf | NegInf | NaN

text \<open>
  An integer tensor of shape (batch, sequence) is a list of rows; the logits, of shape
  (batch, sequence, vocabulary), are a list of rows of score vectors. The tokenizer's
  result (a \<^verbatim>\<open>BatchEncoding\<close>) is a dictionary from field names to integer tensors,
  kept in insertion order.
\<close>

type_synonym int_tensor = "int list list"
type_synonym logits = "real list list list"
type_synonym encoding = "(string \<times> int_tensor) list"

text \<open>\<^verbatim>\<open>PAD_TOKEN_LABEL_ID = torch.nn.CrossEntropyLoss().ignore_index\<close>, which is -100.\<close>

definition PAD_TOKEN_LABEL_ID :: int where
  "PAD_TOKEN_LABEL_ID = - 100"

section \<open>The pretrained tokenizer and model\<close>

text \<open>
  The tokenizer and the model come from the \<^verbatim>\<open>transformers\<close> library. What a tokenizer
  assigns to a text (\<open>encode\<close>) and what a model computes (\<open>forward\<close>) are parameters.
  \<open>forward m n\<close> is the forward pass of \<open>m\<close> once its embedding table has \<open>n\<close> rows, so
  that \<^verbatim>\<open>resize_token_embeddings(n)\<close> is the update of \<open>embed_size\<close>.
\<close>

datatype padding_side = PadRight | PadLeft

record tokenizer =
  encode :: "string \<Rightarrow> int list"
  vocab_len :: nat
  pad_token_id :: "int option"
  model_max_length :: nat
  side :: padding_side
  has_token_type_ids :: bool

record causal_lm =
  embed_size :: nat
  forward :: "nat \<Rightarrow> encoding \<Rightarrow> logits"

datatype device = CPU | CUDA

text \<open>
  The call \<^verbatim>\<open>tokenizer(texts, max_length=..., truncation=True, padding=..., return_tensors='pt')\<close>,
  after the library's documentation: every text is encoded and cut to the length limit
  (\<^verbatim>\<open>max_length\<close>, or the model's maximal length when none is given); with
  \<^verbatim>\<open>padding='max_length'\<close> every row is filled with the pad token up to the limit, with
  \<^verbatim>\<open>padding=True\<close> up to the longest row of the call. Padding without a pad token is a
  \<^verbatim>\<open>ValueError\<close>.
\<close>

datatype padding_strategy = Longest | MaxLength

definition pad_row :: "padding_side \<Rightarrow> 'a \<Rightarrow> nat \<Rightarrow> 'a list \<Rightarrow> 'a list" where
  "pad_row sd p n xs =
     (case sd of
        PadRight \<Rightarrow> xs @ replicate (n - length xs) p
      | PadLeft \<Rightarrow> replicate (n - length xs) p @ xs)"

definition longest :: "'a list list \<Rightarrow> nat" where
  "longest rows = foldr max (map length rows) 0"

definition tokenizer_call ::
  "tokenizer \<Rightarrow> string list \<Rightarrow> nat option \<Rightarrow> padding_strategy \<Rightarrow> py_error + encoding" where
  "tokenizer_call tk texts max_len strategy =
     (case pad_token_id tk of
        None \<Rightarrow> Inl ValueError
      | Some p \<Rightarrow>
          (let limit = (case max_len of Some m \<Rightarrow> m | None \<Rightarrow> model_max_length tk);
               toks = map (\<lambda>s. take limit (encode tk s)) texts;
               width = (case strategy of MaxLength \<Rightarrow> limit | Longest \<Rightarrow> longest toks)
           in Inr ([(''input_ids'', map (pad_row (side tk) p width) toks)]
                 @ (if has_token_type_ids tk
                    then [(''token_type_ids'', map (\<lambda>r. replicate width 0) toks)] else [])
                 @ [(''attention_mask'',
                     map (\<lambda>r. pad_row (side tk) 0 width (replicate (length r) 1)) toks)])))"

section \<open>The scorer\<close>

record LM =
  tokenizer :: tokenizer
  model :: causal_lm
  pad_token_initialized :: bool
  max_length :: "nat option"
  device :: device


subsection \<open>Tensor operations used by the loop\<close>

text \<open>\<^verbatim>\<open>range(0, n, step)\<close>: a zero step is a \<^verbatim>\<open>ValueError\<close>, a negative one gives no index.\<close>

definition py_range :: "nat \<Rightarrow> int \<Rightarrow> py_error + nat list" where
  "py_range n step =
     (if step = 0 then Inl ValueError
      else if step < 0 then Inr []
      else Inr (map (\<lambda>k. k * nat step) [0..<(n + nat step - 1) div nat step]))"

text \<open>\<^verbatim>\<open>v[start:end]\<close> for non-negative bounds.\<close>

definition slice :: "nat \<Rightarrow> nat \<Rightarrow> 'a list \<Rightarrow> 'a list" where
  "slice s e v = take (e - s) (drop s v)"

text \<open>
  \<^verbatim>\<open>torch.nn.CrossEntropyLoss(reduction='none')\<close> on a flat list of score vectors and a flat
  list of targets: the loss of a target is the negated log-softmax of its score, and zero
  where the target is the ignored index. Lists of different lengths are a
  \<^verbatim>\<open>ValueError\<close>, a target outside the vocabulary an \<^verbatim>\<open>IndexError\<close>.
\<close>

definition cross_entropy :: "real list \<Rightarrow> int \<Rightarrow> real" where
  "cross_entropy z t = ln (sum_list (map exp z)) - z ! nat t"

definition token_loss :: "real list \<Rightarrow> int \<Rightarrow> real" where
  "token_loss z t = (if t = PAD_TOKEN_LABEL_ID then 0 else cross_entropy z t)"

definition target_ok :: "real list \<times> int \<Rightarrow> bool" where
  "target_ok zt = (case zt of (z, t) \<Rightarrow>
     t = PAD_TOKEN_LABEL_ID \<or> (0 \<le> t \<and> t < int (length z)))"

definition loss_fct :: "real list list \<Rightarrow> int list \<Rightarrow> py_error + real list" where
  "loss_fct zs ts =
     (if length zs \<noteq> length ts then Inl ValueError
      else if \<not> list_all target_ok (zip zs ts) then Inl IndexError
      else Inr (map2 token_loss zs ts))"

text \<open>\<^verbatim>\<open>t.view(b, -1)\<close> of a flat tensor: \<open>b\<close> rows of equal length.\<close>

definition view_rows :: "nat \<Rightarrow> 'a list \<Rightarrow> py_error + 'a list list" where
  "view_rows b xs =
     (if b = 0 \<or> length xs mod b \<noteq> 0 then Inl RuntimeError
      else Inr (map (\<lambda>i. take (length xs div b) (drop (i * (length xs div b)) xs)) [0..<b]))"

text \<open>Division of a float by an integer count, as the tensor division does it.\<close>

definition fdiv :: "real \<Rightarrow> nat \<Rightarrow> pyfloat" where
  "fdiv x n =
     (if n \<noteq> 0 then Finite (x / real n)
      else if x = 0 then NaN
      else if 0 < x then PosInf else NegInf)"

text \<open>Elementwise division of two one-dimensional tensors, with broadcasting.\<close>

definition tensor_div :: "real list \<Rightarrow> nat list \<Rightarrow> py_error + pyfloat list" where
  "tensor_div xs ns =
     (if length xs = length ns then Inr (map2 fdiv xs ns)
      else if length xs = 1 then Inr (map (fdiv (hd xs)) ns)
      else if length ns = 1 then Inr (map (\<lambda>x. fdiv x (hd ns)) xs)
      else Inl RuntimeError)"

text \<open>\<^verbatim>\<open>math.exp\<close>.\<close>

definition py_exp :: "pyfloat \<Rightarrow> pyfloat" where
  "py_exp x = (case x of
     Finite r \<Rightarrow> Finite (exp r) | PosInf \<Rightarrow> PosInf | NegInf \<Rightarrow> Finite 0 | NaN \<Rightarrow> NaN)"

subsection \<open>One batch\<close>

text \<open>\<^verbatim>\<open>{k: v[start:end].to(self.device) for k, v in model_inputs.items()}\<close>\<close>

definition batch_inputs_of :: "encoding \<Rightarrow> nat \<Rightarrow> nat \<Rightarrow> encoding" where
  "batch_inputs_of mi s e = map (\<lambda>(k, v). (k, slice s e v)) mi"

text \<open>\<^verbatim>\<open>if self.pad_token_initialized: logit = logit[:, :, :-1]\<close>\<close>

definition used_logits :: "LM \<Rightarrow> logits \<Rightarrow> logits" where
  "used_logits lm out = (if pad_token_initialized lm then map (map butlast) out else out)"

text \<open>\<^verbatim>\<open>label[label == self.tokenizer.pad_token_id] = PAD_TOKEN_LABEL_ID\<close>\<close>

definition mask_pad :: "int option \<Rightarrow> int_tensor \<Rightarrow> int_tensor" where
  "mask_pad pad ids =
     (case pad of
        None \<Rightarrow> ids
      | Some p \<Rightarrow> map (map (\<lambda>t. if t = p then PAD_TOKEN_LABEL_ID else t)) ids)"

text \<open>\<^verbatim>\<open>logit[..., :-1, :]\<close> and \<^verbatim>\<open>label[:, 1:]\<close>\<close>

definition shift_logits :: "logits \<Rightarrow> logits" where
  "shift_logits logit = map butlast logit"

definition shift_label :: "int_tensor \<Rightarrow> int_tensor" where
  "shift_label label = map (drop 1) label"

text \<open>\<^verbatim>\<open>(shift_label != PAD_TOKEN_LABEL_ID).sum(dim=-1)\<close>\<close>

definition valid_length :: "int_tensor \<Rightarrow> nat list" where
  "valid_length sl = map (\<lambda>r. length (filter (\<lambda>t. t \<noteq> PAD_TOKEN_LABEL_ID) r)) sl"

text \<open>
  The loss matrix of a batch: the flattened shifted logits and labels go through the loss
  function, and the flat result is viewed as one row per sequence of the model's output.
\<close>

definition token_losses :: "logits \<Rightarrow> logits \<Rightarrow> int_tensor \<Rightarrow> py_error + real list list" where
  "token_losses out logit label =
     (case loss_fct (concat (shift_logits logit)) (concat (shift_label label)) of
        Inl e \<Rightarrow> Inl e
      | Inr loss \<Rightarrow> view_rows (length out) loss)"

text \<open>The mean loss of every sequence of the batch.\<close>

definition batch_loss :: "LM \<Rightarrow> logits \<Rightarrow> int_tensor \<Rightarrow> py_error + pyfloat list" where
  "batch_loss lm out label =
     (case token_losses out (used_logits lm out) label of
        Inl e \<Rightarrow> Inl e
      | Inr loss \<Rightarrow> tensor_div (map sum_list loss) (valid_length (shift_label label)))"

text \<open>
  The state of the loop: the tokenized inputs, the losses collected so far, and the two
  locals that \<^verbatim>\<open>forced_reset\<close> deletes (\<open>None\<close> is an unbound name).

  The slice \<^verbatim>\<open>v[start:end]\<close> is a view of \<^verbatim>\<open>v\<close>, and \<^verbatim>\<open>.to(self.device)\<close> returns the
  tensor itself when it already is on that device. On the CPU, \<^verbatim>\<open>label\<close> therefore shares
  its storage with \<^verbatim>\<open>model_inputs['input_ids']\<close>, and the assignment of the ignored index
  writes through to the rows \<open>start..<end\<close> of it.
\<close>

record loop_state =
  model_inputs :: encoding
  loss_list :: "pyfloat list"
  batch_inputs :: "encoding option"
  output_logits :: "logits option"

definition write_rows :: "nat \<Rightarrow> 'a list \<Rightarrow> 'a list \<Rightarrow> 'a list" where
  "write_rows s new v = take s v @ new @ drop (s + length new) v"

definition set_field :: "string \<Rightarrow> int_tensor \<Rightarrow> encoding \<Rightarrow> encoding" where
  "set_field key t d = map (\<lambda>(k, v). if k = key then (k, t) else (k, v)) d"

definition store_label :: "LM \<Rightarrow> nat \<Rightarrow> int_tensor \<Rightarrow> encoding \<Rightarrow> encoding" where
  "store_label lm s label mi =
     (if device lm = CPU
      then map (\<lambda>(k, v). if k = ''input_ids'' then (k, write_rows s label v) else (k, v)) mi
      else mi)"

definition batch_step ::
  "LM \<Rightarrow> int \<Rightarrow> bool \<Rightarrow> loop_state \<Rightarrow> nat \<Rightarrow> py_error + loop_state" where
  "batch_step lm batch forced_reset st start =
     (let stop = nat (int start + batch);
          bi = batch_inputs_of (model_inputs st) start stop;
          out = forward (model lm) (embed_size (model lm)) bi
      in case map_of bi ''input_ids'' of
           None \<Rightarrow> Inl KeyError
         | Some ids \<Rightarrow>
             (let label = mask_pad (pad_token_id (tokenizer lm)) ids
              in case batch_loss lm out label of
                   Inl e \<Rightarrow> Inl e
                 | Inr loss \<Rightarrow>
                     Inr \<lparr>model_inputs = store_label lm start label (model_inputs st),
                          loss_list = loss_list st @ loss,
                          batch_inputs =
                            (if forced_reset then None
                             else Some (set_field ''input_ids'' label bi)),
                          output_logits = (if forced_reset then None else Some out)\<rparr>))"

fun run_batches ::
  "LM \<Rightarrow> int \<Rightarrow> bool \<Rightarrow> loop_state \<Rightarrow> nat list \<Rightarrow> py_error + loop_state" where
  "run_batches lm batch forced_reset st [] = Inr st"
| "run_batches lm batch forced_reset st (start # starts) =
     (case batch_step lm batch forced_reset st start of
        Inl e \<Rightarrow> Inl e
      | Inr st' \<Rightarrow> run_batches lm batch forced_reset st' starts)"

subsection \<open>\<^verbatim>\<open>get_perplexity\<close>\<close>

datatype input_texts = Str string | Strs "string list"

datatype perplexity = Scalar pyfloat | Values "pyfloat list"

text \<open>Lines 118 to 131: the tokenizer call and the removal of \<^verbatim>\<open>token_type_ids\<close>.\<close>

definition tokenize_inputs :: "LM \<Rightarrow> string list \<Rightarrow> py_error + encoding" where
  "tokenize_inputs lm texts =
     (case (case max_length lm of
              Some ml \<Rightarrow> tokenizer_call (tokenizer lm) texts (Some ml) MaxLength
            | None \<Rightarrow> tokenizer_call (tokenizer lm) texts None Longest) of
        Inl e \<Rightarrow> Inl e
      | Inr mi \<Rightarrow> Inr (filter (\<lambda>(k, v). k \<noteq> ''token_type_ids'') mi))"

definition texts_of :: "input_texts \<Rightarrow> string list" where
  "texts_of inp = (case inp of Str s \<Rightarrow> [s] | Strs ss \<Rightarrow> ss)"

definition get_perplexity ::
  "LM \<Rightarrow> input_texts \<Rightarrow> int option \<Rightarrow> bool \<Rightarrow> py_error + perplexity" where
  "get_perplexity lm inp batch_arg forced_reset =
     (let texts = texts_of inp;
          batch = (case batch_arg of None \<Rightarrow> int (length texts) | Some b \<Rightarrow> b)
      in case tokenize_inputs lm texts of
           Inl e \<Rightarrow> Inl e
         | Inr mi \<Rightarrow>
             (case py_range (length texts) batch of
                Inl e \<Rightarrow> Inl e
              | Inr starts \<Rightarrow>
                  (case run_batches lm batch forced_reset
                          \<lparr>model_inputs = mi, loss_list = [], batch_inputs = None,
                           output_logits = None\<rparr> starts of
                     Inl e \<Rightarrow> Inl e
                   | Inr st \<Rightarrow>
                       (let ppl = map py_exp (loss_list st)
                        in case inp of
                             Str s \<Rightarrow> (case ppl of [] \<Rightarrow> Inl IndexError | p # ps \<Rightarrow> Inr (Scalar p))
                           | Strs ss \<Rightarrow> Inr (Values ppl)))))"

section \<open>Notions used in the statements\<close>

text \<open>What the loop carries from one batch to the next and into the result.\<close>

definition core :: "loop_state \<Rightarrow> encoding \<times> pyfloat list" where
  "core st = (model_inputs st, loss_list st)"

definition row_losses :: "real list list \<Rightarrow> int list \<Rightarrow> real list" where
  "row_losses zr tr = map2 token_loss (butlast zr) (drop 1 tr)"


definition mean_nll :: "real list list \<Rightarrow> int list \<Rightarrow> pyfloat" where
  "mean_nll zr tr =
     (let scored = filter (\<lambda>(z, t). t \<noteq> PAD_TOKEN_LABEL_ID) (zip (butlast zr) (drop 1 tr))
      in fdiv (sum_list (map (\<lambda>(z, t). cross_entropy z t) scored)) (length scored))"

definition input_ids_of :: "encoding \<Rightarrow> int_tensor" where
  "input_ids_of d = (case map_of d ''input_ids'' of Some t \<Rightarrow> t | None \<Rightarrow> [])"

definition logits_shape :: "causal_lm \<Rightarrow> bool" where
  "logits_shape m =
     (\<forall>n d. list_all2 (\<lambda>zr tr. length zr = length tr \<and> list_all (\<lambda>z. length z = n) zr)
               (forward m n d) (input_ids_of d))"

definition logit_width :: "LM \<Rightarrow> nat" where
  "logit_width lm =
     (if pad_token_initialized lm then embed_size (model lm) - 1 else embed_size (model lm))"

definition in_vocab :: "nat \<Rightarrow> int \<Rightarrow> bool" where
  "in_vocab v t = (0 \<le> t \<and> t < int v)"

definition ids_in_vocab :: "LM \<Rightarrow> bool" where
  "ids_in_vocab lm = (\<forall>s. list_all (in_vocab (logit_width lm)) (encode (tokenizer lm) s))"

definition scorer_ok :: "LM \<Rightarrow> bool" where
  "scorer_ok lm =
     (pad_token_id (tokenizer lm) \<noteq> None \<and> logits_shape (model lm) \<and> ids_in_vocab lm)"

definition label_ok :: "nat \<Rightarrow> int \<Rightarrow> bool" where
  "label_ok v t = (t = PAD_TOKEN_LABEL_ID \<or> in_vocab v t)"

definition tokens :: "LM \<Rightarrow> string list \<Rightarrow> int list list" where
  "tokens lm texts =
     map (\<lambda>s. take (case max_length lm of Some ml \<Rightarrow> ml
                     | None \<Rightarrow> model_max_length (tokenizer lm))
                (encode (tokenizer lm) s)) texts"

definition seq_width :: "LM \<Rightarrow> string list \<Rightarrow> nat" where
  "seq_width lm texts =
     (case max_length lm of Some ml \<Rightarrow> ml | None \<Rightarrow> longest (tokens lm texts))"

definition pad_id :: "LM \<Rightarrow> int" where
  "pad_id lm = (case pad_token_id (tokenizer lm) of Some p \<Rightarrow> p | None \<Rightarrow> 0)"

definition input_ids :: "LM \<Rightarrow> string list \<Rightarrow> int_tensor" where
  "input_ids lm texts =
     map (pad_row (side (tokenizer lm)) (pad_id lm) (seq_width lm texts)) (tokens lm texts)"

definition attention_mask :: "LM \<Rightarrow> string list \<Rightarrow> int_tensor" where
  "attention_mask lm texts =
     map (\<lambda>r. pad_row (side (tokenizer lm)) 0 (seq_width lm texts) (replicate (length r) 1))
       (tokens lm texts)"

definition batch_encoding :: "LM \<Rightarrow> string list \<Rightarrow> nat \<Rightarrow> nat \<Rightarrow> encoding" where
  "batch_encoding lm texts s e =
     [(''input_ids'', slice s e (input_ids lm texts)),
      (''attention_mask'', slice s e (attention_mask lm texts))]"

definition batch_logits :: "LM \<Rightarrow> string list \<Rightarrow> nat \<Rightarrow> nat \<Rightarrow> logits" where
  "batch_logits lm texts s e =
     used_logits lm (forward (model lm) (embed_size (model lm)) (batch_encoding lm texts s e))"

definition batch_labels :: "LM \<Rightarrow> string list \<Rightarrow> nat \<Rightarrow> nat \<Rightarrow> int_tensor" where
  "batch_labels lm texts s e =
     mask_pad (pad_token_id (tokenizer lm)) (slice s e (input_ids lm texts))"



definition num_batches :: "nat \<Rightarrow> nat \<Rightarrow> nat" where
  "num_batches n b = (n + b - 1) div b"





text \<open>
  The perplexity of one sequence in the spec's words: the per-token cross-entropy losses of
  the shifted sequence, summed over the positions whose label is not the ignored index,
  divided by the number of those positions, and exponentiated. \<open>spec_all\<close> collects
  it for every sequence of every batch, in order.
\<close>

definition spec_perplexity :: "real list list \<Rightarrow> int list \<Rightarrow> pyfloat" where
  "spec_perplexity zr tr = py_exp (mean_nll zr tr)"

definition spec_batch :: "LM \<Rightarrow> string list \<Rightarrow> nat \<Rightarrow> nat \<Rightarrow> pyfloat list" where
  "spec_batch lm texts s e =
     map2 spec_perplexity (batch_logits lm texts s e) (batch_labels lm texts s e)"

definition spec_all :: "LM \<Rightarrow> string list \<Rightarrow> nat \<Rightarrow> pyfloat list" where
  "spec_all lm texts b =
     concat (map (\<lambda>k. spec_batch lm texts (k * b) (k * b + b))
               [0..<num_batches (length texts) b])"

text \<open>
  A small scorer for the concrete instances: every character is the token 1, the
  tokenizer has no pad token of its own (the constructor adds token 2), and the model
  scores every token 0.
\<close>

definition example_tokenizer :: tokenizer where
  "example_tokenizer =
     \<lparr>encode = map (\<lambda>c. 1), vocab_len = 2, pad_token_id = None, model_max_length = 8,
      side = PadRight, has_token_type_ids = True\<rparr>"

definition example_model :: causal_lm where
  "example_model =
     \<lparr>embed_size = 2,
      forward = (\<lambda>n d. map (map (\<lambda>t. replicate n 0)) (input_ids_of d))\<rparr>"

definition example_lm :: LM where
  "example_lm =
     \<lparr>tokenizer = example_tokenizer\<lparr>pad_token_id := Some 2, vocab_len := 3\<rparr>,
      model = example_model\<lparr>embed_size := 3\<rparr>,
      pad_token_initialized = True, max_length = None, device = CPU\<rparr>"








section \<open>The forced reset\<close>

lemma batch_step_core:
  "core s1 = core s2 \<Longrightarrow>
   map_sum (\<lambda>e. e) core (batch_step lm b f1 s1 k) = map_sum (\<lambda>e. e) core (batch_step lm b f2 s2 k)"
  by (auto simp: batch_step_def core_def Let_def split: option.splits sum.splits)

lemma run_batches_core:
  "core s1 = core s2 \<Longrightarrow>
   map_sum (\<lambda>e. e) core (run_batches lm b f1 s1 ks) = map_sum (\<lambda>e. e) core (run_batches lm b f2 s2 ks)"
proof (induction ks arbitrary: s1 s2)
  case Nil
  then show ?case by simp
next
  case (Cons k ks)
  from batch_step_core[OF Cons.prems, of lm b f1 k f2]
  show ?case
    by (cases "batch_step lm b f1 s1 k"; cases "batch_step lm b f2 s2 k")
       (auto intro: Cons.IH)
qed

lemma run_batches_loss:
  "map_sum (\<lambda>e. e) loss_list (run_batches lm b True s ks)
     = map_sum (\<lambda>e. e) loss_list (run_batches lm b False s ks)"
  using run_batches_core[of s s lm b True ks False]
  by (cases "run_batches lm b True s ks"; cases "run_batches lm b False s ks") (auto simp: core_def)

text \<open>
  Claim C9. For every scorer, input and batch argument, \<^verbatim>\<open>get_perplexity\<close> returns the same
  value (or raises the same exception) with \<^verbatim>\<open>forced_reset\<close> set and unset: the branch
  only unbinds the locals \<^verbatim>\<open>batch_inputs\<close> and \<^verbatim>\<open>output\<close>, which the next batch binds
  again before reading them, after the batch's losses have been appended.
\<close>

theorem forced_reset_irrelevant:
  "get_perplexity lm inp batch_arg True = get_perplexity lm inp batch_arg False"
proof -
  let ?texts = "texts_of inp"
  let ?b = "case batch_arg of None \<Rightarrow> int (length ?texts) | Some b \<Rightarrow> b"
  show ?thesis
  proof (cases "tokenize_inputs lm ?texts")
    case (Inl e)
    then show ?thesis by (simp add: get_perplexity_def Let_def)
  next
    case tok: (Inr mi)
    show ?thesis
    proof (cases "py_range (length ?texts) ?b")
      case (Inl e)
      with tok show ?thesis by (simp add: get_perplexity_def Let_def)
    next
      case (Inr starts)
      let ?s0 = "\<lparr>model_inputs = mi, loss_list = [], batch_inputs = None, output_logits = None\<rparr>"
      from run_batches_loss[of lm ?b ?s0 starts] tok Inr show ?thesis
        by (cases "run_batches lm ?b True ?s0 starts"; cases "run_batches lm ?b False ?s0 starts")
           (simp_all add: get_perplexity_def Let_def)
    qed
  qed
qed

lemma zip_concat:
  "list_all2 (\<lambda>xs ys. length xs = length ys) xss yss \<Longrightarrow>
   zip (concat xss) (concat yss) = concat (map2 zip xss yss)"
  by (induction xss yss rule: list_all2_induct) auto

lemma view_rows_concat_aux:
  "\<forall>r\<in>set rows. length r = m \<Longrightarrow>
   map (\<lambda>i. take m (drop (i * m) (concat rows))) [0..<length rows] = rows"
proof (induction rows)
  case Nil
  then show ?case by simp
next
  case (Cons r rows)
  have "[0..<length (r # rows)] = 0 # map Suc [0..<length rows]"
    by (simp add: upt_conv_Cons map_Suc_upt del: upt_Suc)
  with Cons show ?case by (simp add: o_def)
qed

lemma length_concat_const:
  "\<forall>r\<in>set rows. length r = m \<Longrightarrow> length (concat rows) = length rows * m"
  by (induction rows) auto

lemma view_rows_concat:
  assumes "rows \<noteq> []" and "\<forall>r\<in>set rows. length r = m"
  shows "view_rows (length rows) (concat rows) = Inr rows"
proof -
  have len: "length (concat rows) = length rows * m"
    using assms(2) by (rule length_concat_const)
  from assms(1) have pos: "0 < length rows" by simp
  then have "length (concat rows) div length rows = m"
    by (simp add: len)
  with pos show ?thesis
    by (simp add: view_rows_def len view_rows_concat_aux[OF assms(2)])
qed




lemma length_concat_eq:
  "list_all2 (\<lambda>xs ys. length xs = length ys) xss yss \<Longrightarrow>
   length (concat xss) = length (concat yss)"
  by (induction xss yss rule: list_all2_induct) auto

lemma map2_concat:
  "list_all2 (\<lambda>xs ys. length xs = length ys) xss yss \<Longrightarrow>
   map2 f (concat xss) (concat yss) = concat (map2 (map2 f) xss yss)"
  by (induction xss yss rule: list_all2_induct) auto

lemma list_all_zip_concat:
  "list_all2 (\<lambda>xs ys. length xs = length ys) xss yss \<Longrightarrow>
   list_all P (zip (concat xss) (concat yss))
     = list_all2 (\<lambda>xs ys. list_all P (zip xs ys)) xss yss"
  by (induction xss yss rule: list_all2_induct) auto

lemma shifted_lengths:
  "list_all2 (\<lambda>zr tr. length zr = length tr) logit label \<Longrightarrow>
   list_all2 (\<lambda>xs ys. length xs = length ys) (shift_logits logit) (shift_label label)"
  by (induction logit label rule: list_all2_induct) (auto simp: shift_logits_def shift_label_def)

lemma shifted_targets:
  "list_all2 (\<lambda>zr tr. list_all target_ok (zip (butlast zr) (drop 1 tr))) logit label \<Longrightarrow>
   list_all2 (\<lambda>xs ys. list_all target_ok (zip xs ys)) (shift_logits logit) (shift_label label)"
  by (induction logit label rule: list_all2_induct) (auto simp: shift_logits_def shift_label_def)

lemma shifted_rows:
  "length logit = length label \<Longrightarrow>
   map2 (map2 token_loss) (shift_logits logit) (shift_label label) = map2 row_losses logit label"
  by (induction logit label rule: list_induct2)
     (auto simp: shift_logits_def shift_label_def row_losses_def)

lemma token_losses_rows:
  assumes shape: "list_all2 (\<lambda>zr tr. length zr = length tr) logit label"
    and out: "length out = length logit" "out \<noteq> []"
    and rect: "\<forall>tr\<in>set label. length tr = l"
    and ok: "list_all2 (\<lambda>zr tr. list_all target_ok (zip (butlast zr) (drop 1 tr))) logit label"
  shows "token_losses out logit label = Inr (map2 row_losses logit label)"
proof -
  let ?rows = "map2 row_losses logit label"
  have len: "length logit = length label"
    using shape by (rule list_all2_lengthD)
  note sh = shifted_lengths[OF shape]
  have flat: "loss_fct (concat (shift_logits logit)) (concat (shift_label label))
      = Inr (concat ?rows)"
    using length_concat_eq[OF sh] shifted_targets[OF ok]
    by (simp add: loss_fct_def list_all_zip_concat[OF sh] map2_concat[OF sh] shifted_rows[OF len])
  have rows_len: "\<forall>r\<in>set ?rows. length r = l - 1"
  proof
    fix r assume "r \<in> set ?rows"
    then obtain zr tr where zt: "(zr, tr) \<in> set (zip logit label)" and r: "r = row_losses zr tr"
      by auto
    from zt have "tr \<in> set label" by (rule set_zip_rightD)
    with rect have "length tr = l" by simp
    moreover from zt shape have "length zr = length tr"
      by (auto simp: list_all2_iff)
    ultimately show "length r = l - 1" by (simp add: r row_losses_def)
  qed
  have n: "length ?rows = length out" "?rows \<noteq> []"
    using out len by auto
  from view_rows_concat[OF n(2) rows_len] flat show ?thesis
    by (simp add: token_losses_def out(1) len)
qed


lemma used_logits_shape:
  assumes "list_all2 (\<lambda>zr tr. length zr = length tr \<and> list_all (\<lambda>z. length z = embed_size (model lm)) zr) out label"
  shows "list_all2 (\<lambda>zr tr. length zr = length tr \<and> list_all (\<lambda>z. length z = logit_width lm) zr)
           (used_logits lm out) label"
  using assms
  by (induction out label rule: list_all2_induct)
     (auto simp: used_logits_def logit_width_def list_all_iff)

lemma row_targets_ok:
  assumes "list_all (\<lambda>z. length z = v) zr" and "list_all (label_ok v) tr"
  shows "list_all target_ok (zip (butlast zr) (drop 1 tr))"
proof -
  have "target_ok (z, t)" if "(z, t) \<in> set (zip (butlast zr) (drop 1 tr))" for z t
  proof -
    from that have "z \<in> set zr" "t \<in> set tr"
      by (auto dest: set_zip_leftD set_zip_rightD in_set_butlastD in_set_dropD)
    with assms show ?thesis
      by (auto simp: list_all_iff target_ok_def label_ok_def in_vocab_def)
  qed
  then show ?thesis by (auto simp: list_all_iff)
qed

lemma token_losses_used:
  assumes shape: "list_all2 (\<lambda>zr tr. length zr = length tr \<and> list_all (\<lambda>z. length z = embed_size (model lm)) zr) out label"
    and ne: "label \<noteq> []"
    and rect: "\<forall>tr\<in>set label. length tr = l"
    and ok: "list_all (list_all (label_ok (logit_width lm))) label"
  shows "token_losses out (used_logits lm out) label
           = Inr (map2 row_losses (used_logits lm out) label)"
proof -
  let ?logit = "used_logits lm out"
  note us = used_logits_shape[OF shape]
  have len: "length out = length ?logit" "length ?logit = length label"
    using list_all2_lengthD[OF us] by (simp_all add: used_logits_def split: if_splits)
  have s1: "list_all2 (\<lambda>zr tr. length zr = length tr) ?logit label"
    using us by (rule list_all2_mono) simp
  have s2: "list_all2 (\<lambda>zr tr. list_all target_ok (zip (butlast zr) (drop 1 tr))) ?logit label"
    unfolding list_all2_conv_all_nth
  proof (intro conjI allI impI)
    show "length ?logit = length label" by (rule len(2))
  next
    fix i assume i: "i < length ?logit"
    with us have "list_all (\<lambda>z. length z = logit_width lm) (?logit ! i)"
      by (simp add: list_all2_conv_all_nth)
    moreover from i ok len have "list_all (label_ok (logit_width lm)) (label ! i)"
      by (simp add: list_all_length)
    ultimately show "list_all target_ok (zip (butlast (?logit ! i)) (drop 1 (label ! i)))"
      by (rule row_targets_ok)
  qed
  from ne len have "out \<noteq> []" by auto
  from token_losses_rows[OF s1 len(1) this rect s2] show ?thesis .
qed


lemma tokenize_inputs_eq:
  "pad_token_id (tokenizer lm) = Some p \<Longrightarrow>
   tokenize_inputs lm texts
     = Inr [(''input_ids'', input_ids lm texts), (''attention_mask'', attention_mask lm texts)]"
  by (cases "max_length lm")
     (simp_all add: tokenize_inputs_def tokenizer_call_def Let_def input_ids_def
        attention_mask_def tokens_def seq_width_def pad_id_def)

lemma length_le_longest: "r \<in> set rows \<Longrightarrow> length r \<le> longest rows"
  by (induction rows) (auto simp: longest_def)

lemma length_tokens_le: "r \<in> set (tokens lm texts) \<Longrightarrow> length r \<le> seq_width lm texts"
  by (cases "max_length lm")
     (auto simp: seq_width_def length_le_longest, auto simp: tokens_def)

lemma length_pad_row: "length xs \<le> n \<Longrightarrow> length (pad_row sd p n xs) = n"
  by (cases sd) (simp_all add: pad_row_def)

lemma input_ids_rect: "r \<in> set (input_ids lm texts) \<Longrightarrow> length r = seq_width lm texts"
  by (auto simp: input_ids_def length_pad_row length_tokens_le)

lemma length_input_ids [simp]: "length (input_ids lm texts) = length texts"
  by (simp add: input_ids_def tokens_def)


lemma set_pad_row: "set (pad_row sd p n xs) \<subseteq> insert p (set xs)"
  by (cases sd) (auto simp: pad_row_def)

lemma tokens_in_vocab:
  assumes "ids_in_vocab lm" and "r \<in> set (tokens lm texts)" and "t \<in> set r"
  shows "in_vocab (logit_width lm) t"
proof -
  from assms(2) obtain s n where "r = take n (encode (tokenizer lm) s)"
    by (auto simp: tokens_def)
  with assms(3) have "t \<in> set (encode (tokenizer lm) s)"
    by (auto dest: in_set_takeD)
  with assms(1) show ?thesis
    by (auto simp: ids_in_vocab_def list_all_iff)
qed

lemma input_ids_label_ok:
  assumes "ids_in_vocab lm" and "pad_token_id (tokenizer lm) = Some p"
    and "r \<in> set (input_ids lm texts)" and "t \<in> set r"
  shows "t = p \<or> in_vocab (logit_width lm) t"
proof -
  from assms(3) obtain r0 where r0: "r0 \<in> set (tokens lm texts)"
    and r: "r = pad_row (side (tokenizer lm)) p (seq_width lm texts) r0"
    by (auto simp: input_ids_def pad_id_def assms(2))
  from assms(4) r set_pad_row[of "side (tokenizer lm)" p "seq_width lm texts" r0]
  have "t = p \<or> t \<in> set r0" by auto
  with tokens_in_vocab[OF assms(1) r0] show ?thesis by auto
qed

lemma set_slice: "set (slice s e v) \<subseteq> set v"
  by (auto simp: slice_def dest: in_set_takeD in_set_dropD)

lemma batch_labels_ok:
  assumes "ids_in_vocab lm" and "pad_token_id (tokenizer lm) = Some p"
  shows "list_all (list_all (label_ok (logit_width lm))) (batch_labels lm texts s e)"
proof -
  have pad: "label_ok (logit_width lm) PAD_TOKEN_LABEL_ID"
    by (simp add: label_ok_def)
  have tok: "label_ok (logit_width lm) t"
    if "r \<in> set (slice s e (input_ids lm texts))" and "t \<in> set r" and "t \<noteq> p" for r t
  proof -
    from that(1) set_slice[of s e "input_ids lm texts"]
    have "r \<in> set (input_ids lm texts)" by auto
    from input_ids_label_ok[OF assms this that(2)] that(3) show ?thesis
      by (auto simp: label_ok_def)
  qed
  show ?thesis
    by (auto simp: batch_labels_def mask_pad_def assms(2) list_all_iff pad tok)
qed

lemma batch_labels_rect:
  "tr \<in> set (batch_labels lm texts s e) \<Longrightarrow> length tr = seq_width lm texts"
proof -
  assume "tr \<in> set (batch_labels lm texts s e)"
  then obtain r where "r \<in> set (slice s e (input_ids lm texts))" and "length tr = length r"
    by (auto simp: batch_labels_def mask_pad_def split: option.splits)
  with set_slice[of s e "input_ids lm texts"] input_ids_rect[of r lm texts]
  show ?thesis by auto
qed

lemma batch_shape:
  assumes "logits_shape (model lm)"
  shows "list_all2 (\<lambda>zr tr. length zr = length tr
            \<and> list_all (\<lambda>z. length z = embed_size (model lm)) zr)
          (forward (model lm) (embed_size (model lm)) (batch_encoding lm texts s e))
          (batch_labels lm texts s e)"
proof -
  let ?ids = "slice s e (input_ids lm texts)"
  have "input_ids_of (batch_encoding lm texts s e) = ?ids"
    by (simp add: input_ids_of_def batch_encoding_def)
  with assms[unfolded logits_shape_def, rule_format,
      of "embed_size (model lm)" "batch_encoding lm texts s e"]
  have "list_all2 (\<lambda>zr tr. length zr = length tr
            \<and> list_all (\<lambda>z. length z = embed_size (model lm)) zr)
          (forward (model lm) (embed_size (model lm)) (batch_encoding lm texts s e)) ?ids"
    by simp
  then show ?thesis
    by (cases "pad_token_id (tokenizer lm)")
       (simp_all add: batch_labels_def mask_pad_def list_all2_map2)
qed

lemma batch_facts:
  assumes ok: "scorer_ok lm" and s: "s < length texts" "s < e"
  shows "batch_labels lm texts s e \<noteq> []"
    and "\<forall>tr\<in>set (batch_labels lm texts s e). length tr = seq_width lm texts"
    and "list_all (list_all (label_ok (logit_width lm))) (batch_labels lm texts s e)"
proof -
  from ok obtain p where p: "pad_token_id (tokenizer lm) = Some p"
    and vocab: "ids_in_vocab lm"
    by (auto simp: scorer_ok_def)
  from s have "slice s e (input_ids lm texts) \<noteq> []"
    by (simp add: slice_def)
  then show "batch_labels lm texts s e \<noteq> []"
    by (simp add: batch_labels_def mask_pad_def p)
  show "\<forall>tr\<in>set (batch_labels lm texts s e). length tr = seq_width lm texts"
    by (auto dest: batch_labels_rect)
  show "list_all (list_all (label_ok (logit_width lm))) (batch_labels lm texts s e)"
    by (rule batch_labels_ok[OF vocab p])
qed

lemma batch_token_losses_eq:
  assumes ok: "scorer_ok lm" and s: "s < length texts" "s < e"
  shows "token_losses (forward (model lm) (embed_size (model lm)) (batch_encoding lm texts s e))
           (batch_logits lm texts s e) (batch_labels lm texts s e)
         = Inr (map2 row_losses (batch_logits lm texts s e) (batch_labels lm texts s e))"
proof -
  from ok have shape: "logits_shape (model lm)" by (simp add: scorer_ok_def)
  from token_losses_used[OF batch_shape[OF shape] batch_facts[OF ok s]]
  show ?thesis by (simp add: batch_logits_def)
qed


lemma batch_rows_aligned:
  assumes "logits_shape (model lm)"
  shows "list_all2 (\<lambda>zr tr. length zr = length tr)
           (batch_logits lm texts s e) (batch_labels lm texts s e)"
  using used_logits_shape[OF batch_shape[OF assms, of texts s e]]
  unfolding batch_logits_def by (rule list_all2_mono) simp

















lemma example_lm_ok: "scorer_ok example_lm"
  by (simp add: scorer_ok_def example_lm_def example_tokenizer_def example_model_def
      logits_shape_def ids_in_vocab_def logit_width_def in_vocab_def list_all2_map1
      list_all2_same list_all_iff)

lemma replicate_3: "replicate 3 x = [x, x, x]"
  by (simp add: numeral_3_eq_3)

lemmas example_defs = example_lm_def example_tokenizer_def example_model_def input_ids_of_def
  replicate_3


lemmas spec_defs = spec_all_def spec_batch_def spec_perplexity_def mean_nll_def
  batch_logits_def batch_labels_def batch_encoding_def input_ids_def attention_mask_def
  tokens_def seq_width_def pad_id_def num_batches_def






lemma row_losses_nth:
  assumes "length zr = length tr" and "Suc i < length tr"
  shows "row_losses zr tr ! i = token_loss (zr ! i) (tr ! Suc i)"
    and "length (row_losses zr tr) = length tr - 1"
  using assms by (simp_all add: row_losses_def nth_butlast)

text \<open>
  Claim C2. In a batch of \<^verbatim>\<open>get_perplexity\<close>, the loss matrix has one entry less per
  sequence than the sequence has positions, and its entry \<open>i\<close> scores the logits of
  position \<open>i\<close> against the label of position \<open>i + 1\<close>: the last logit position and the
  first label position are dropped.
\<close>

theorem shift_alignment:
  assumes "scorer_ok lm" and "s < length texts" and "s < e"
    and "r < length (batch_labels lm texts s e)" and "Suc i < seq_width lm texts"
  shows "\<exists>loss. token_losses
             (forward (model lm) (embed_size (model lm)) (batch_encoding lm texts s e))
             (batch_logits lm texts s e) (batch_labels lm texts s e) = Inr loss
           \<and> length (loss ! r) = seq_width lm texts - 1
           \<and> loss ! r ! i
               = token_loss (batch_logits lm texts s e ! r ! i)
                   (batch_labels lm texts s e ! r ! Suc i)"
proof -
  let ?logit = "batch_logits lm texts s e" and ?label = "batch_labels lm texts s e"
  from assms(1) have shape: "logits_shape (model lm)" by (simp add: scorer_ok_def)
  note al = batch_rows_aligned[OF shape, of texts s e]
  from al have len: "length ?logit = length ?label" by (rule list_all2_lengthD)
  from al assms(4) have row: "length (?logit ! r) = length (?label ! r)"
    by (simp add: list_all2_conv_all_nth)
  from assms(4) have "?label ! r \<in> set ?label" by simp
  then have w: "length (?label ! r) = seq_width lm texts" by (rule batch_labels_rect)
  from assms(5) w have i: "Suc i < length (?label ! r)" by simp
  have "map2 row_losses ?logit ?label ! r = row_losses (?logit ! r) (?label ! r)"
    using assms(4) len by simp
  with row_losses_nth[OF row i] w batch_token_losses_eq[OF assms(1-3)]
  show ?thesis by simp
qed

lemma example_labels:
  "batch_labels example_lm [''ab'', ''a''] 0 2 = [[1, 1], [1, PAD_TOKEN_LABEL_ID]]"
  by (simp add: spec_defs example_defs slice_def mask_pad_def longest_def pad_row_def)

theorem shift_alignment_witness:
  "\<exists>loss. token_losses
             (forward (model example_lm) (embed_size (model example_lm))
                (batch_encoding example_lm [''ab'', ''a''] 0 2))
             (batch_logits example_lm [''ab'', ''a''] 0 2)
             (batch_labels example_lm [''ab'', ''a''] 0 2) = Inr loss
           \<and> length (loss ! 1) = seq_width example_lm [''ab'', ''a''] - 1
           \<and> loss ! 1 ! 0
               = token_loss (batch_logits example_lm [''ab'', ''a''] 0 2 ! 1 ! 0)
                   (batch_labels example_lm [''ab'', ''a''] 0 2 ! 1 ! Suc 0)"
  by (rule shift_alignment[OF example_lm_ok])
     (simp_all add: example_labels, simp add: spec_defs example_defs longest_def)














lemma attention_mask_rect:
  "r \<in> set (attention_mask lm texts) \<Longrightarrow> length r = seq_width lm texts"
  by (auto simp: attention_mask_def length_pad_row length_tokens_le)

text \<open>
  Claim C6, as the code has it. The tokenizer is called once, on the whole input list,
  before the loop: with a \<^verbatim>\<open>max_length\<close> every sequence is cut to it and padded to it;
  without one every sequence is padded to the longest sequence of the whole input list
  (cut to the model's maximal length). The \<^verbatim>\<open>token_type_ids\<close> field is removed, so no
  batch handed to the model has it.
\<close>

theorem tokenization_padding:
  assumes "pad_token_id (tokenizer lm) = Some p"
  shows "tokenize_inputs lm texts
           = Inr [(''input_ids'', input_ids lm texts),
                  (''attention_mask'', attention_mask lm texts)]
         \<and> input_ids lm texts
             = map (\<lambda>s. pad_row (side (tokenizer lm)) p (seq_width lm texts)
                           (take (case max_length lm of Some ml \<Rightarrow> ml
                                  | None \<Rightarrow> model_max_length (tokenizer lm))
                              (encode (tokenizer lm) s))) texts
         \<and> list_all (\<lambda>r. length r = seq_width lm texts) (input_ids lm texts)
         \<and> list_all (\<lambda>r. length r = seq_width lm texts) (attention_mask lm texts)
         \<and> seq_width lm texts
             = (case max_length lm of
                  Some ml \<Rightarrow> ml
                | None \<Rightarrow> longest (map (\<lambda>s. take (model_max_length (tokenizer lm))
                                              (encode (tokenizer lm) s)) texts))
         \<and> map fst (batch_inputs_of
                       [(''input_ids'', input_ids lm texts),
                        (''attention_mask'', attention_mask lm texts)] s e)
             = [''input_ids'', ''attention_mask'']"
proof -
  have 1: "input_ids lm texts
             = map (\<lambda>s. pad_row (side (tokenizer lm)) p (seq_width lm texts)
                           (take (case max_length lm of Some ml \<Rightarrow> ml
                                  | None \<Rightarrow> model_max_length (tokenizer lm))
                              (encode (tokenizer lm) s))) texts"
    by (simp add: input_ids_def tokens_def pad_id_def assms o_def)
  have 2: "list_all (\<lambda>r. length r = seq_width lm texts) (input_ids lm texts)"
    by (simp add: list_all_iff input_ids_rect)
  have 3: "list_all (\<lambda>r. length r = seq_width lm texts) (attention_mask lm texts)"
    by (simp add: list_all_iff attention_mask_rect)
  have 4: "seq_width lm texts
             = (case max_length lm of
                  Some ml \<Rightarrow> ml
                | None \<Rightarrow> longest (map (\<lambda>s. take (model_max_length (tokenizer lm))
                                              (encode (tokenizer lm) s)) texts))"
    by (cases "max_length lm") (simp_all add: seq_width_def tokens_def)
  have 5: "map fst (batch_inputs_of
                       [(''input_ids'', input_ids lm texts),
                        (''attention_mask'', attention_mask lm texts)] s e)
             = [''input_ids'', ''attention_mask'']"
    by (simp add: batch_inputs_of_def)
  from tokenize_inputs_eq[OF assms, of texts] 1 2 3 4 5 show ?thesis by (intro conjI)
qed

theorem tokenization_padding_witness:
  "tokenize_inputs example_lm [''abc'', ''a'']
     = Inr [(''input_ids'', input_ids example_lm [''abc'', ''a'']),
            (''attention_mask'', attention_mask example_lm [''abc'', ''a''])]
   \<and> input_ids example_lm [''abc'', ''a''] = [[1, 1, 1], [1, 2, 2]]
   \<and> attention_mask example_lm [''abc'', ''a''] = [[1, 1, 1], [1, 0, 0]]
   \<and> seq_width example_lm [''abc'', ''a''] = 3
   \<and> input_ids (example_lm\<lparr>max_length := Some 2\<rparr>) [''abc'', ''a''] = [[1, 1], [1, 2]]"
proof -
  have p: "pad_token_id (tokenizer example_lm) = Some 2"
    by (simp add: example_lm_def example_tokenizer_def)
  have p': "pad_token_id (tokenizer (example_lm\<lparr>max_length := Some 2\<rparr>)) = Some 2"
    by (simp add: example_lm_def example_tokenizer_def)
  from tokenization_padding[OF p, of "[''abc'', ''a'']" 0 1]
    tokenization_padding[OF p', of "[''abc'', ''a'']" 0 1]
  show ?thesis
    by (simp add: example_lm_def example_tokenizer_def attention_mask_def tokens_def
        seq_width_def longest_def pad_row_def)
qed

text \<open>
  Claim C6 as stated fails for a batch size below the number of texts: with the texts
  \<^verbatim>\<open>abc\<close> and \<^verbatim>\<open>a\<close> and a batch size of 1 the second batch holds the text \<^verbatim>\<open>a\<close> alone,
  whose natural length is 1, and its row has length 3, the length of the longest text of
  the whole list.
\<close>

theorem batch_padding_counterexample:
  "max_length example_lm = None
   \<and> tokenize_inputs example_lm [''abc'', ''a'']
       = Inr [(''input_ids'', [[1, 1, 1], [1, 2, 2]]),
              (''attention_mask'', [[1, 1, 1], [1, 0, 0]])]
   \<and> py_range (length [''abc'', ''a'']) 1 = Inr [0, 1]
   \<and> batch_inputs_of [(''input_ids'', [[1, 1, 1], [1, 2, 2]]),
                       (''attention_mask'', [[1, 1, 1], [1, 0, 0]])] 1 (1 + 1)
       = [(''input_ids'', [[1, 2, 2]]), (''attention_mask'', [[1, 0, 0]])]
   \<and> longest (map (encode (tokenizer example_lm)) (slice 1 (1 + 1) [''abc'', ''a''])) = 1"
  by (simp add: example_lm_def example_tokenizer_def tokenize_inputs_def tokenizer_call_def
      Let_def longest_def pad_row_def py_range_def batch_inputs_of_def slice_def upt_conv_Cons)











lemma length_attention_mask [simp]: "length (attention_mask lm texts) = length texts"
  by (simp add: attention_mask_def tokens_def)





lemma hd_used_logits:
  "length out = 1 \<Longrightarrow> used_logits lm out = [hd (used_logits lm out)]"
  by (cases out) (auto simp: used_logits_def)





















end
